theory Spec2Isabelle
  imports Main
begin

section \<open>The DOM as seen by dom-navigator.js\<close>

text \<open>
  Elements and function objects are identified by handles. The DOM is an explicit store:
  one field per attribute the navigator reads or writes, each a function of the element
  handle, so that aliasing (the scroll container may be the container, the body, or a
  candidate) is resolved by function update.

  The offset attributes are the integers of the CSSOM (\<open>long\<close>); the scroll offsets and
  the client rectangle are taken in whole pixels as well.
\<close>

type_synonym elem = nat
type_synonym handler = nat

record rect =
  rect_top :: int
  rect_left :: int
  rect_bottom :: int
  rect_right :: int

text \<open>
  \<open>effects\<close> is a history of the calls that mark, unmark or scroll, in the order they are
  made. No operation reads it.
\<close>

datatype effect =
    RemoveClass string elem
  | AddClass string elem
  | Focus elem
  | ScrollTo elem string

record dom =
  offsetLeft :: "elem \<Rightarrow> int"
  offsetTop :: "elem \<Rightarrow> int"
  offsetWidth :: "elem \<Rightarrow> int"
  offsetHeight :: "elem \<Rightarrow> int"
  offsetParent :: "elem \<Rightarrow> elem option"
  scrollLeft :: "elem \<Rightarrow> int"
  scrollTop :: "elem \<Rightarrow> int"
  getBoundingClientRect :: "elem \<Rightarrow> rect"
  innerHeight :: int
  innerWidth :: int
  clientWidth :: int
  clientHeight :: int
  body :: elem
  classList :: "elem \<Rightarrow> string set"
  activeElement :: "elem option"
  matches_input :: "elem \<Rightarrow> bool"
  querySelectorAll :: "elem \<Rightarrow> string \<Rightarrow> elem list"
  documentElement :: elem
  intoViewScrollLeft :: "elem \<Rightarrow> elem \<Rightarrow> int"
  intoViewScrollTop :: "elem \<Rightarrow> elem \<Rightarrow> int"
  domNavigator :: "elem \<Rightarrow> bool"
  listeners :: "handler list"
  next_function :: handler
  effects :: "effect list"

text \<open>
  \<open>innerHeight\<close>, \<open>innerWidth\<close> belong to \<open>window\<close>; \<open>clientWidth\<close>, \<open>clientHeight\<close> to
  \<open>document.documentElement\<close>; \<open>listeners\<close> are the keydown listeners of the document, in
  registration order; \<open>next_function\<close> is the identity the next function object gets
  (every evaluation of an arrow function yields a new object). \<open>documentElement\<close> is the
  root of the document, so \<open>querySelectorAll\<close> on it gives the elements of the whole
  document that match a selector, in document order. \<open>intoViewScrollLeft dm el\<close> and
  \<open>intoViewScrollTop dm el\<close> are the scroll offsets the browser leaves when it scrolls
  \<open>el\<close> into view. \<open>domNavigator dm c\<close> says whether the element \<open>c\<close> has a truthy
  property \<open>domNavigator\<close>.
\<close>

section \<open>JavaScript numbers, as far as the navigator needs them\<close>

datatype jsnum = Num int | PosInf | NegInf | NaN

fun js_neg :: "jsnum \<Rightarrow> jsnum" where
  "js_neg (Num a) = Num (- a)"
| "js_neg PosInf = NegInf"
| "js_neg NegInf = PosInf"
| "js_neg NaN = NaN"

fun js_add :: "jsnum \<Rightarrow> jsnum \<Rightarrow> jsnum" where
  "js_add NaN b = NaN"
| "js_add a NaN = NaN"
| "js_add (Num a) (Num b) = Num (a + b)"
| "js_add PosInf NegInf = NaN"
| "js_add NegInf PosInf = NaN"
| "js_add PosInf b = PosInf"
| "js_add a PosInf = PosInf"
| "js_add NegInf b = NegInf"
| "js_add a NegInf = NegInf"

definition js_sub :: "jsnum \<Rightarrow> jsnum \<Rightarrow> jsnum" where
  "js_sub a b = js_add a (js_neg b)"

fun js_abs :: "jsnum \<Rightarrow> jsnum" where
  "js_abs (Num a) = Num \<bar>a\<bar>"
| "js_abs PosInf = PosInf"
| "js_abs NegInf = PosInf"
| "js_abs NaN = NaN"

fun js_lt :: "jsnum \<Rightarrow> jsnum \<Rightarrow> bool" where
  "js_lt NaN b = False"
| "js_lt a NaN = False"
| "js_lt (Num a) (Num b) = (a < b)"
| "js_lt a NegInf = False"
| "js_lt PosInf b = False"
| "js_lt NegInf b = True"
| "js_lt a PosInf = True"

fun js_le :: "jsnum \<Rightarrow> jsnum \<Rightarrow> bool" where
  "js_le NaN b = False"
| "js_le a NaN = False"
| "js_le (Num a) (Num b) = (a \<le> b)"
| "js_le NegInf b = True"
| "js_le a PosInf = True"
| "js_le a NegInf = False"
| "js_le PosInf b = False"

definition js_ge :: "jsnum \<Rightarrow> jsnum \<Rightarrow> bool" where
  "js_ge a b = js_le b a"

section \<open>The navigator object\<close>

datatype error = TypeError | Error string

abbreviation DIRECTION_left :: string where "DIRECTION_left \<equiv> ''left''"
abbreviation DIRECTION_up :: string where "DIRECTION_up \<equiv> ''up''"
abbreviation DIRECTION_right :: string where "DIRECTION_right \<equiv> ''right''"
abbreviation DIRECTION_down :: string where "DIRECTION_down \<equiv> ''down''"

record options =
  opt_selected :: string
  opt_selector :: string
  opt_left :: int
  opt_up :: int
  opt_right :: int
  opt_down :: int

definition DEFAULTS :: options where
  "DEFAULTS = \<lparr>opt_selected = ''selected'', opt_selector = ''li'',
     opt_left = 37, opt_up = 38, opt_right = 39, opt_down = 40\<rparr>"

text \<open>
  What \<open>this.selected\<close> evaluates to. \<open>init\<close> stores \<open>null\<close> and \<open>select\<close> stores an element
  in an own property of the instance. \<open>unselect\<close> deletes that own property; the class
  also declares a method named \<open>selected\<close>, so after the deletion \<open>this.selected\<close> is that
  method of the prototype: a function object, which is truthy, is identical to no
  element, and has no offset attributes.
\<close>

datatype selection = Null | Elem elem | SelectedMethod

fun truthy_selection :: "selection \<Rightarrow> bool" where
  "truthy_selection Null = False"
| "truthy_selection (Elem e) = True"
| "truthy_selection SelectedMethod = True"

text \<open>
  \<open>elements\<close> and \<open>enabled\<close> are \<open>None\<close> while the property is undefined: the constructor
  sets neither.
\<close>

record navigator =
  container :: elem
  scroll_container :: elem
  options :: options
  selected :: selection
  keydownHandler :: "handler option"
  keys :: "int \<rightharpoonup> string"
  elements :: "elem list option"
  enabled :: "bool option"

definition init :: "navigator \<Rightarrow> navigator" where
  "init n = n\<lparr>selected := Null, keydownHandler := None,
     keys := ((((Map.empty)(opt_left (options n) \<mapsto> DIRECTION_left))
                (opt_up (options n) \<mapsto> DIRECTION_up))
                (opt_right (options n) \<mapsto> DIRECTION_right))
                (opt_down (options n) \<mapsto> DIRECTION_down)\<rparr>"

text \<open>
  The constructor, given the container, the optional scroll container of the options and
  the options already merged over \<open>DEFAULTS\<close>.
\<close>

definition constructor :: "elem \<Rightarrow> elem option \<Rightarrow> options \<Rightarrow> navigator" where
  "constructor c sc opts =
     init \<lparr>container = c,
           scroll_container = (case sc of None \<Rightarrow> c | Some s \<Rightarrow> s),
           options = opts, selected = Null, keydownHandler = None, keys = Map.empty,
           elements = None, enabled = None\<rparr>"

section \<open>Visibility and absolute offsets\<close>

definition inViewport :: "dom \<Rightarrow> elem \<Rightarrow> bool" where
  "inViewport dm el =
     (let r = getBoundingClientRect dm el in
        rect_top r \<ge> 0 \<and> rect_left r \<ge> 0 \<and>
        rect_bottom r \<le> innerHeight dm \<and> rect_right r \<le> innerWidth dm)"

text \<open>
  The do-while loops of \<open>absoluteOffsetTop\<close> and \<open>absoluteOffsetLeft\<close>, with the running sum
  as an argument. The offsets of an element are integers here, so the \<open>isNaN\<close> guard of
  the source always lets the addition happen. The result is \<open>None\<close> when the walk along
  \<open>offsetParent\<close> never reaches an element without one.
\<close>

partial_function (option) absoluteOffsetTop_loop :: "dom \<Rightarrow> elem \<Rightarrow> int \<Rightarrow> int option" where
  "absoluteOffsetTop_loop dm el acc =
     (case offsetParent dm el of
        None \<Rightarrow> Some (acc + offsetTop dm el)
      | Some p \<Rightarrow> absoluteOffsetTop_loop dm p (acc + offsetTop dm el))"

definition absoluteOffsetTop :: "dom \<Rightarrow> elem \<Rightarrow> int option" where
  "absoluteOffsetTop dm el = absoluteOffsetTop_loop dm el 0"

partial_function (option) absoluteOffsetLeft_loop :: "dom \<Rightarrow> elem \<Rightarrow> int \<Rightarrow> int option" where
  "absoluteOffsetLeft_loop dm el acc =
     (case offsetParent dm el of
        None \<Rightarrow> Some (acc + offsetLeft dm el)
      | Some p \<Rightarrow> absoluteOffsetLeft_loop dm p (acc + offsetLeft dm el))"

definition absoluteOffsetLeft :: "dom \<Rightarrow> elem \<Rightarrow> int option" where
  "absoluteOffsetLeft dm el = absoluteOffsetLeft_loop dm el 0"

definition inScrollContainerViewport :: "navigator \<Rightarrow> dom \<Rightarrow> elem \<Rightarrow> bool" where
  "inScrollContainerViewport n dm el =
     (let container = scroll_container n in
        if offsetLeft dm el - scrollLeft dm container < offsetLeft dm container then False
        else if offsetTop dm el - scrollTop dm container < offsetTop dm container then False
        else if offsetLeft dm el + offsetWidth dm el - scrollLeft dm container
                > offsetLeft dm container + offsetWidth dm container then False
        else if offsetTop dm el + offsetHeight dm el - scrollTop dm container
                > offsetTop dm container + offsetHeight dm container then False
        else True)"

section \<open>Scrolling\<close>

text \<open>
  An assignment to \<open>scrollLeft\<close> or \<open>scrollTop\<close> stores the assigned value. (A browser
  may clamp it to the scrollable range; that is outside the source.)
\<close>

definition set_scrollLeft :: "elem \<Rightarrow> int \<Rightarrow> dom \<Rightarrow> dom" where
  "set_scrollLeft c v dm = dm\<lparr>scrollLeft := (scrollLeft dm)(c := v)\<rparr>"

definition set_scrollTop :: "elem \<Rightarrow> int \<Rightarrow> dom \<Rightarrow> dom" where
  "set_scrollTop c v dm = dm\<lparr>scrollTop := (scrollTop dm)(c := v)\<rparr>"

definition scrollTo :: "navigator \<Rightarrow> dom \<Rightarrow> elem \<Rightarrow> string \<Rightarrow> dom option" where
  "scrollTo n dm0 el direction =
     (let dm = dm0\<lparr>effects := effects dm0 @ [ScrollTo el direction]\<rparr> in
      if \<not> inScrollContainerViewport n dm el then
        (let container = scroll_container n in
         if direction = DIRECTION_left then
           Some (set_scrollLeft container (offsetLeft dm el - offsetLeft dm container) dm)
         else if direction = DIRECTION_up then
           Some (set_scrollTop container (offsetTop dm el - offsetTop dm container) dm)
         else if direction = DIRECTION_right then
           Some (set_scrollLeft container
                  (offsetLeft dm el - offsetLeft dm container
                     - (offsetWidth dm container - offsetWidth dm el)) dm)
         else if direction = DIRECTION_down then
           Some (set_scrollTop container
                  (offsetTop dm el - offsetTop dm container
                     - (offsetHeight dm container - offsetHeight dm el)) dm)
         else Some dm)
      else if \<not> inViewport dm el then
        (if direction = DIRECTION_left then
           (case absoluteOffsetLeft dm el of None \<Rightarrow> None
            | Some a \<Rightarrow> Some (set_scrollLeft (body dm) (a - offsetLeft dm (body dm)) dm))
         else if direction = DIRECTION_up then
           (case absoluteOffsetTop dm el of None \<Rightarrow> None
            | Some a \<Rightarrow> Some (set_scrollTop (body dm) (a - offsetTop dm (body dm)) dm))
         else if direction = DIRECTION_right then
           (case absoluteOffsetLeft dm el of None \<Rightarrow> None
            | Some a \<Rightarrow> Some (set_scrollLeft (body dm)
                (a - offsetLeft dm (body dm) - (clientWidth dm - offsetWidth dm el)) dm))
         else if direction = DIRECTION_down then
           (case absoluteOffsetTop dm el of None \<Rightarrow> None
            | Some a \<Rightarrow> Some (set_scrollTop (body dm)
                (a - offsetTop dm (body dm) - (clientHeight dm - offsetHeight dm el)) dm))
         else Some dm)
      else Some dm)"

section \<open>Selecting and unselecting\<close>

text \<open>
  Modelled from the spec: \<open>u.addClass\<close> and \<open>u.removeClass\<close> of \<open>./utils/html\<close> are not
  among the sources. The spec names them as the capability to apply and to remove the
  highlight marker on a given element. A target that is not an element has no class
  list, and the DOM stays as it is.
\<close>

definition u_addClass :: "string \<Rightarrow> elem \<Rightarrow> dom \<Rightarrow> dom" where
  "u_addClass cls el dm =
     dm\<lparr>classList := (classList dm)(el := insert cls (classList dm el)),
        effects := effects dm @ [AddClass cls el]\<rparr>"

fun u_removeClass :: "string \<Rightarrow> selection \<Rightarrow> dom \<Rightarrow> dom" where
  "u_removeClass cls (Elem el) dm =
     dm\<lparr>classList := (classList dm)(el := classList dm el - {cls}),
        effects := effects dm @ [RemoveClass cls el]\<rparr>"
| "u_removeClass cls Null dm = dm"
| "u_removeClass cls SelectedMethod dm = dm"

text \<open>
  \<open>el.focus()\<close> makes the element the active element of the document. The source calls
  it with no \<open>preventScroll\<close> option, so the browser also scrolls the element into view:
  an element that is fully visible in the viewport already keeps every scroll offset, and
  for any other element the scroll offsets become those the browser chooses.
\<close>

definition focus :: "elem \<Rightarrow> dom \<Rightarrow> dom" where
  "focus el dm =
     (if inViewport dm el
      then dm\<lparr>activeElement := Some el, effects := effects dm @ [Focus el]\<rparr>
      else dm\<lparr>scrollLeft := intoViewScrollLeft dm el,
              scrollTop := intoViewScrollTop dm el,
              activeElement := Some el, effects := effects dm @ [Focus el]\<rparr>)"

definition unselect :: "navigator \<Rightarrow> dom \<Rightarrow> navigator \<times> dom" where
  "unselect n dm =
     (if truthy_selection (selected n)
      then (n\<lparr>selected := SelectedMethod\<rparr>,
            u_removeClass (opt_selected (options n)) (selected n) dm)
      else (n, dm))"

text \<open>
  \<open>select (el, direction)\<close>: \<open>el\<close> is \<open>None\<close> for \<open>null\<close> or \<open>undefined\<close>, \<open>direction\<close> is
  \<open>None\<close> when the argument is left out. The empty string is falsy as well. The result is
  \<open>None\<close> when \<open>scrollTo\<close> does not return.
\<close>

definition select :: "navigator \<Rightarrow> dom \<Rightarrow> elem option \<Rightarrow> string option \<Rightarrow> (navigator \<times> dom) option" where
  "select n dm el direction =
     (case el of
        None \<Rightarrow> Some (n, dm)
      | Some e \<Rightarrow>
          if selected n = Elem e then Some (n, dm)
          else
            (case unselect n dm of (n1, dm1) \<Rightarrow>
              (case (case direction of
                       None \<Rightarrow> Some dm1
                     | Some d \<Rightarrow> if d = [] then Some dm1 else scrollTo n1 dm1 e d) of
                 None \<Rightarrow> None
               | Some dm2 \<Rightarrow>
                   Some (n1\<lparr>selected := Elem e\<rparr>,
                         if matches_input dm2 e then focus e dm2
                         else u_addClass (opt_selected (options n1)) e dm2))))"

section \<open>The candidates and the next element\<close>

definition getElements :: "navigator \<Rightarrow> dom \<Rightarrow> navigator" where
  "getElements n dm =
     n\<lparr>elements := Some (querySelectorAll dm (container n) (opt_selector (options n)))\<rparr>"

definition elementsAfter :: "navigator \<Rightarrow> dom \<Rightarrow> jsnum \<Rightarrow> jsnum \<Rightarrow> error + elem list" where
  "elementsAfter n dm left top' =
     (case elements n of
        None \<Rightarrow> Inl TypeError
      | Some els \<Rightarrow>
          Inr (filter (\<lambda>el. js_ge (Num (offsetLeft dm el)) left \<and> js_ge (Num (offsetTop dm el)) top') els))"

definition elementsBefore :: "navigator \<Rightarrow> dom \<Rightarrow> jsnum \<Rightarrow> jsnum \<Rightarrow> error + elem list" where
  "elementsBefore n dm left top' =
     (case elements n of
        None \<Rightarrow> Inl TypeError
      | Some els \<Rightarrow>
          Inr (filter (\<lambda>el. js_le (Num (offsetLeft dm el)) left \<and> js_le (Num (offsetTop dm el)) top') els))"

text \<open>
  Modelled from the spec: \<open>u.getNextElement\<close> and \<open>u.getPreviousElement\<close> of
  \<open>./utils/html\<close> are not among the sources. The source calls them with
  \<open>this.selected\<close> and the selector of the options, and with nothing else. The spec:
  Right gives the candidate immediately following the current selection in sequence
  order, Left the candidate immediately preceding it; neither wraps around, and at the
  last (first) position the result is absent. Candidates are the elements that match the
  selector, in document order; a helper that is given the element and the selector only
  sees those of the whole document, \<open>querySelectorAll\<close> on \<open>documentElement\<close>.
  \<open>following\<close> and \<open>preceding\<close> walk such a sequence. The spec takes a current selection
  for granted; called with \<open>null\<close> or with the method, the helpers raise a \<open>TypeError\<close>.
\<close>

fun following :: "elem list \<Rightarrow> elem \<Rightarrow> elem option" where
  "following (x # y # ys) el = (if x = el then Some y else following (y # ys) el)"
| "following ys el = None"

fun preceding :: "elem list \<Rightarrow> elem \<Rightarrow> elem option" where
  "preceding (x # y # ys) el = (if y = el then Some x else preceding (y # ys) el)"
| "preceding ys el = None"

fun u_getNextElement :: "dom \<Rightarrow> selection \<Rightarrow> string \<Rightarrow> error + elem option" where
  "u_getNextElement dm (Elem el) selector =
     Inr (following (querySelectorAll dm (documentElement dm) selector) el)"
| "u_getNextElement dm Null selector = Inl TypeError"
| "u_getNextElement dm SelectedMethod selector = Inl TypeError"

fun u_getPreviousElement :: "dom \<Rightarrow> selection \<Rightarrow> string \<Rightarrow> error + elem option" where
  "u_getPreviousElement dm (Elem el) selector =
     Inr (preceding (querySelectorAll dm (documentElement dm) selector) el)"
| "u_getPreviousElement dm Null selector = Inl TypeError"
| "u_getPreviousElement dm SelectedMethod selector = Inl TypeError"

text \<open>
  Reading an offset attribute of \<open>this.selected\<close>: a \<open>TypeError\<close> on \<open>null\<close>; \<open>undefined\<close>
  on the method, which every arithmetic operation turns into \<open>NaN\<close>.
\<close>

fun selected_offset :: "(elem \<Rightarrow> int) \<Rightarrow> selection \<Rightarrow> error + jsnum" where
  "selected_offset f Null = Inl TypeError"
| "selected_offset f (Elem e) = Inr (Num (f e))"
| "selected_offset f SelectedMethod = Inr NaN"

record best =
  distance :: jsnum
  element :: "elem option"

definition reduce_step :: "(elem \<Rightarrow> jsnum) \<Rightarrow> best \<Rightarrow> elem \<Rightarrow> best" where
  "reduce_step getDistance prev current =
     (let current_distance = getDistance current in
      if js_lt current_distance (distance prev)
      then \<lparr>distance = current_distance, element = Some current\<rparr>
      else prev)"

definition reduce :: "(elem \<Rightarrow> jsnum) \<Rightarrow> elem list \<Rightarrow> elem option" where
  "reduce getDistance els =
     element (foldl (reduce_step getDistance) \<lparr>distance = PosInf, element = None\<rparr> els)"

text \<open>
  \<open>getNextElement\<close>. For Right and Left it hands \<open>this.selected\<close> and the selector to
  the helpers and returns what they return; \<open>this.elements\<close> is read for Down and Up only.
\<close>

definition getNextElement :: "navigator \<Rightarrow> dom \<Rightarrow> string \<Rightarrow> error + elem option" where
  "getNextElement n dm direction =
     (if direction = DIRECTION_right then
        u_getNextElement dm (selected n) (opt_selector (options n))
      else if direction = DIRECTION_left then
        u_getPreviousElement dm (selected n) (opt_selector (options n))
      else if direction = DIRECTION_down then
        (case selected_offset (offsetLeft dm) (selected n) of Inl err \<Rightarrow> Inl err
         | Inr left \<Rightarrow>
        (case selected_offset (offsetTop dm) (selected n) of Inl err \<Rightarrow> Inl err
         | Inr t \<Rightarrow>
        (case selected_offset (offsetHeight dm) (selected n) of Inl err \<Rightarrow> Inl err
         | Inr h \<Rightarrow>
           (let top' = js_add t h in
            case elementsAfter n dm (Num 0) top' of Inl err \<Rightarrow> Inl err
            | Inr els \<Rightarrow>
                Inr (reduce (\<lambda>el. js_add (js_abs (js_sub (Num (offsetLeft dm el)) left))
                                         (js_abs (js_sub (Num (offsetTop dm el)) top'))) els)))))
      else if direction = DIRECTION_up then
        (case selected_offset (offsetLeft dm) (selected n) of Inl err \<Rightarrow> Inl err
         | Inr left \<Rightarrow>
        (case selected_offset (offsetTop dm) (selected n) of Inl err \<Rightarrow> Inl err
         | Inr t \<Rightarrow>
           (let top' = js_sub t (Num 1) in
            case elementsBefore n dm PosInf top' of Inl err \<Rightarrow> Inl err
            | Inr els \<Rightarrow>
                Inr (reduce (\<lambda>el. js_add (js_abs (js_sub left (Num (offsetLeft dm el))))
                                         (js_abs (js_sub top' (Num (offsetTop dm el))))) els))))
      else Inl (Error ''getNextElement: invalid direction value''))"

section \<open>The lifecycle and the key handler\<close>

text \<open>
  \<open>addEventListener\<close> ignores a listener that is already registered; \<open>removeEventListener\<close>
  removes the listener it is given. Logging (\<open>log.info\<close>) has no effect on the state.
\<close>

definition addEventListener :: "handler \<Rightarrow> dom \<Rightarrow> dom" where
  "addEventListener h dm =
     (if h \<in> set (listeners dm) then dm else dm\<lparr>listeners := listeners dm @ [h]\<rparr>)"

definition removeEventListener :: "handler \<Rightarrow> dom \<Rightarrow> dom" where
  "removeEventListener h dm = dm\<lparr>listeners := remove1 h (listeners dm)\<rparr>"

definition enable :: "navigator \<Rightarrow> dom \<Rightarrow> navigator \<times> dom" where
  "enable n dm =
     (let n1 = getElements n dm;
          h = next_function dm;
          dm1 = dm\<lparr>next_function := Suc h\<rparr>
      in (n1\<lparr>keydownHandler := Some h, enabled := Some True\<rparr>, addEventListener h dm1))"

definition disable :: "navigator \<Rightarrow> dom \<Rightarrow> navigator \<times> dom" where
  "disable n dm =
     (let dm1 = (case keydownHandler n of
                   None \<Rightarrow> dm
                 | Some h \<Rightarrow> removeEventListener h dm)
      in case unselect n dm1 of (n1, dm2) \<Rightarrow> (n1\<lparr>enabled := Some False\<rparr>, dm2))"

text \<open>
  \<open>destroy\<close>, documented as "Destroy this navigator removing any event registered and any
  other data": \<open>disable\<close>, then the property \<open>domNavigator\<close> of the container is deleted
  when it is truthy.
\<close>

definition destroy :: "navigator \<Rightarrow> dom \<Rightarrow> navigator \<times> dom" where
  "destroy n dm =
     (case disable n dm of (n1, dm1) \<Rightarrow>
        (n1, if domNavigator dm1 (container n1)
             then dm1\<lparr>domNavigator := (domNavigator dm1)(container n1 := False)\<rparr>
             else dm1))"

record event =
  which :: int
  defaultPrevented :: bool

text \<open>
  \<open>handleKeydown\<close> returns the event, the navigator and the DOM as it leaves them, or the
  error it throws; \<open>None\<close> when \<open>select\<close> does not return.
\<close>

definition handleKeydown ::
  "navigator \<Rightarrow> dom \<Rightarrow> event \<Rightarrow> (error + event \<times> navigator \<times> dom) option" where
  "handleKeydown n dm ev =
     (case keys n (which ev) of
        None \<Rightarrow> Some (Inr (ev, n, dm))
      | Some direction \<Rightarrow>
          if direction = [] then Some (Inr (ev, n, dm))
          else
            (let ev1 = ev\<lparr>defaultPrevented := True\<rparr> in
             case (if truthy_selection (selected n) then getNextElement n dm direction
                   else (case elements n of
                           None \<Rightarrow> Inl TypeError
                         | Some els \<Rightarrow> Inr (case els of [] \<Rightarrow> None | x # xs \<Rightarrow> Some x))) of
               Inl err \<Rightarrow> Some (Inl err)
             | Inr next \<Rightarrow>
                 (case select n dm next (Some direction) of
                    None \<Rightarrow> None
                  | Some (n1, dm1) \<Rightarrow> Some (Inr (ev1, n1, dm1)))))"

section \<open>Example states\<close>

text \<open>
  The layout of the spec's examples: a container (element 0, 200 by 100) with four
  candidates 1, 2, 3, 4 at (0,0), (100,0), (0,50), (100,50), each 100 wide and 50 high;
  element 10 is the root of the document and element 9 its body. The candidates are the
  only \<open>li\<close> elements of the document. \<open>grid_nav\<close> is a navigator on that container,
  constructed with the default options and enabled.
\<close>

definition grid_dom :: dom where
  "grid_dom =
     \<lparr>offsetLeft = (\<lambda>e. if e = 2 \<or> e = 4 then 100 else 0),
      offsetTop = (\<lambda>e. if e = 3 \<or> e = 4 then 50 else 0),
      offsetWidth = (\<lambda>e. if e = 0 then 200 else 100),
      offsetHeight = (\<lambda>e. if e = 0 then 100 else 50),
      offsetParent = (\<lambda>e. None),
      scrollLeft = (\<lambda>e. 0),
      scrollTop = (\<lambda>e. 0),
      getBoundingClientRect =
        (\<lambda>e. \<lparr>rect_top = 0, rect_left = 0, rect_bottom = 50, rect_right = 100\<rparr>),
      innerHeight = 600, innerWidth = 800, clientWidth = 800, clientHeight = 600,
      body = 9,
      classList = (\<lambda>e. {}),
      activeElement = None,
      matches_input = (\<lambda>e. False),
      querySelectorAll =
        (\<lambda>c s. if (c = 0 \<or> c = 10) \<and> s = ''li'' then [1, 2, 3, 4] else []),
      documentElement = 10,
      intoViewScrollLeft = (\<lambda>el c. 0),
      intoViewScrollTop = (\<lambda>el c. 0),
      domNavigator = (\<lambda>c. False),
      listeners = [],
      next_function = 0,
      effects = []\<rparr>"

definition grid_nav :: navigator where
  "grid_nav = fst (enable (constructor 0 None DEFAULTS) grid_dom)"

section \<open>Notions of the spec used to state the properties\<close>

text \<open>
  The Manhattan distance of a candidate to an anchor, and the choice the spec describes
  among a sequence of candidates: the first candidate, in sequence order, whose distance
  is minimal (none when there is no candidate). A later candidate at the same distance is
  not the first one, so it is never the choice.
\<close>

definition manhattan :: "dom \<Rightarrow> int \<Rightarrow> int \<Rightarrow> elem \<Rightarrow> int" where
  "manhattan dm left top' el = \<bar>offsetLeft dm el - left\<bar> + \<bar>offsetTop dm el - top'\<bar>"

definition first_nearest :: "(elem \<Rightarrow> int) \<Rightarrow> elem list \<Rightarrow> elem option" where
  "first_nearest g cands = find (\<lambda>x. list_all (\<lambda>e. g x \<le> g e) cands) cands"

text \<open>
  A layout with a candidate left of its offset parent: candidate 1 at (0,0), candidate 2
  at (-10,50), candidate 3 at (100,50), each 100 by 50; candidate 1 is selected.
\<close>

definition c1_dom :: dom where
  "c1_dom = grid_dom
     \<lparr>offsetLeft := (\<lambda>e. if e = 2 then - 10 else if e = 3 then 100 else 0),
      offsetTop := (\<lambda>e. if e = 2 \<or> e = 3 then 50 else 0),
      querySelectorAll := (\<lambda>c s. if c = 0 \<and> s = ''li'' then [1, 2, 3] else [])\<rparr>"

definition c1_nav :: navigator where
  "c1_nav = (fst (enable (constructor 0 None DEFAULTS) c1_dom))\<lparr>selected := Elem 1\<rparr>"

text \<open>
  The part of the history that an operation leading from \<open>dm\<close> to \<open>dm'\<close> has added, the
  invocations of \<open>scrollTo\<close> in a history, and the markings (a highlight class added, or
  the focus given).
\<close>

definition new_effects :: "dom \<Rightarrow> dom \<Rightarrow> effect list" where
  "new_effects dm dm' = drop (length (effects dm)) (effects dm')"

fun is_scroll :: "effect \<Rightarrow> bool" where
  "is_scroll (ScrollTo el d) = True"
| "is_scroll (RemoveClass c el) = False"
| "is_scroll (AddClass c el) = False"
| "is_scroll (Focus el) = False"

fun is_mark :: "effect \<Rightarrow> bool" where
  "is_mark (AddClass c el) = True"
| "is_mark (Focus el) = True"
| "is_mark (RemoveClass c el) = False"
| "is_mark (ScrollTo el d) = False"

text \<open>
  The value the source assigns to the container's \<open>scrollTop\<close> for Down (the spec's
  \<open>\<Delta>\<close>, read with the offset attributes the source uses).
\<close>

definition delta_down :: "navigator \<Rightarrow> dom \<Rightarrow> elem \<Rightarrow> int" where
  "delta_down n dm el =
     offsetTop dm el - offsetTop dm (scroll_container n)
       - (offsetHeight dm (scroll_container n) - offsetHeight dm el)"

text \<open>
  The grid with the container scrolled down by 10 and a further element 5 at (0,100),
  100 by 50: its bottom edge is at 140 in the container's view, whose bottom is at 100.
\<close>

definition c5_dom :: dom where
  "c5_dom = grid_dom
     \<lparr>offsetTop := (\<lambda>e. if e = 5 then 100 else if e = 3 \<or> e = 4 then 50 else 0),
      scrollTop := (\<lambda>e. if e = 0 then 10 else 0)\<rparr>"

text \<open>
  What a call \<open>select (e, d)\<close> that goes through adds to the history: the removal of the
  class from the element selected before, the invocation of \<open>scrollTo\<close> when a direction
  is given, and the marking of \<open>e\<close>; and the class lists \<open>unselect\<close> leaves.
\<close>

definition unmark_effects :: "navigator \<Rightarrow> effect list" where
  "unmark_effects n =
     (case selected n of
        Elem p \<Rightarrow> [RemoveClass (opt_selected (options n)) p]
      | Null \<Rightarrow> []
      | SelectedMethod \<Rightarrow> [])"

definition scroll_effects :: "elem \<Rightarrow> string option \<Rightarrow> effect list" where
  "scroll_effects e d =
     (case d of None \<Rightarrow> [] | Some dir \<Rightarrow> if dir = [] then [] else [ScrollTo e dir])"

definition mark_effect :: "navigator \<Rightarrow> dom \<Rightarrow> elem \<Rightarrow> effect" where
  "mark_effect n dm e =
     (if matches_input dm e then Focus e else AddClass (opt_selected (options n)) e)"

definition unmarked_classes :: "navigator \<Rightarrow> dom \<Rightarrow> elem \<Rightarrow> string set" where
  "unmarked_classes n dm =
     (case selected n of
        Elem p \<Rightarrow> (classList dm)(p := classList dm p - {opt_selected (options n)})
      | Null \<Rightarrow> classList dm
      | SelectedMethod \<Rightarrow> classList dm)"

definition marked_classes :: "navigator \<Rightarrow> dom \<Rightarrow> elem \<Rightarrow> elem \<Rightarrow> string set" where
  "marked_classes n dm e =
     (if matches_input dm e then unmarked_classes n dm
      else (unmarked_classes n dm)
             (e := insert (opt_selected (options n)) (unmarked_classes n dm e)))"

text \<open>
  The grid after \<open>select (2, 'down')\<close> on the enabled navigator: candidate 2 carries the
  class, and the history holds the invocation of \<open>scrollTo\<close> and the marking.
\<close>

definition c6_dom :: dom where
  "c6_dom = grid_dom
     \<lparr>classList := (classList grid_dom)(2 := {''selected''}),
      effects := [ScrollTo 2 DIRECTION_down, AddClass ''selected'' 2]\<rparr>"

text \<open>The grid with candidate 1 an \<open>input\<close> element.\<close>

definition input_dom :: dom where
  "input_dom = grid_dom\<lparr>matches_input := (\<lambda>e. e = 1)\<rparr>"

text \<open>
  A navigator on the grid, enabled once, and enabled a second time with no \<open>disable\<close> in
  between.
\<close>

definition c3_once :: "navigator \<times> dom" where
  "c3_once = enable (constructor 0 None DEFAULTS) grid_dom"

definition c3_twice :: "navigator \<times> dom" where
  "c3_twice = enable (fst c3_once) (snd c3_once)"

text \<open>The navigator enabled twice, then destroyed.\<close>

definition c3_destroyed :: "navigator \<times> dom" where
  "c3_destroyed = destroy (fst c3_twice) (snd c3_twice)"

text \<open>
  The grid with a further element 5, an \<open>input\<close> below the window (its top at 700, the
  window 600 high); to bring it into view the browser scrolls the body (element 9) to 150.
\<close>

definition c9_dom :: dom where
  "c9_dom = grid_dom
     \<lparr>getBoundingClientRect :=
        (\<lambda>e. if e = 5
             then \<lparr>rect_top = 700, rect_left = 0, rect_bottom = 750, rect_right = 100\<rparr>
             else \<lparr>rect_top = 0, rect_left = 0, rect_bottom = 50, rect_right = 100\<rparr>),
      matches_input := (\<lambda>e. e = 5),
      intoViewScrollTop := (\<lambda>el c. if el = 5 \<and> c = 9 then 150 else 0)\<rparr>"

text \<open>
  The grid with the container scrolled down by 60, so that the first candidate (top 0,
  height 50) lies above the visible part; and what the Up key (38) does on the enabled
  navigator there, nothing being selected yet.
\<close>

definition c4_dom :: dom where
  "c4_dom = grid_dom\<lparr>scrollTop := (\<lambda>e. if e = 0 then 60 else 0)\<rparr>"

definition c4_result :: "(error + event \<times> navigator \<times> dom) option" where
  "c4_result = handleKeydown grid_nav c4_dom \<lparr>which = 38, defaultPrevented = False\<rparr>"

text \<open>
  The elements that carry the configured highlight class, and the invariant that ties
  them to the selection: the selected element carries the class when it is not an
  \<open>input\<close>, and no other element does.
\<close>

definition highlighted :: "navigator \<Rightarrow> dom \<Rightarrow> elem set" where
  "highlighted n dm = {e. opt_selected (options n) \<in> classList dm e}"

definition highlight_inv :: "navigator \<Rightarrow> dom \<Rightarrow> bool" where
  "highlight_inv n dm =
     (highlighted n dm =
        (case selected n of
           Elem e \<Rightarrow> if matches_input dm e then {} else {e}
         | Null \<Rightarrow> {}
         | SelectedMethod \<Rightarrow> {}))"

text \<open>
  On the grid with candidate 1 an \<open>input\<close>: candidate 1 is selected, then candidate 2.
\<close>

definition c8_first :: "(navigator \<times> dom) option" where
  "c8_first = select grid_nav input_dom (Some 1) None"

definition c8_second :: "(navigator \<times> dom) option" where
  "c8_second = (case c8_first of None \<Rightarrow> None | Some (n, dm) \<Rightarrow> select n dm (Some 2) None)"

section \<open>Facts about the example states\<close>

lemma grid_nav_simps:
  "elements grid_nav = Some [1, 2, 3, 4]"
  "scroll_container grid_nav = 0"
  "options grid_nav = DEFAULTS"
  "selected grid_nav = Null"
  "keys grid_nav 37 = Some ''left''"
  "keys grid_nav 38 = Some ''up''"
  "keys grid_nav 39 = Some ''right''"
  "keys grid_nav 40 = Some ''down''"
  by (simp_all add: grid_nav_def enable_def getElements_def constructor_def init_def
      grid_dom_def DEFAULTS_def Let_def)

subsection \<open>Walking a candidate sequence to the right and to the left\<close>




subsection \<open>The reduction over the filtered candidates\<close>

lemma first_nearest_Nil: "first_nearest g [] = None"
  by (simp add: first_nearest_def)

lemma find_app:
  "find P (xs @ ys) = (case find P xs of None \<Rightarrow> find P ys | Some x \<Rightarrow> Some x)"
  by (induction xs) simp_all

lemma first_nearest_split:
  assumes "cands = pre @ x # post"
    and "\<forall>e\<in>set pre. g x < g e"
    and "\<forall>e\<in>set post. g x \<le> g e"
  shows "first_nearest g cands = Some x"
proof -
  have x_min: "list_all (\<lambda>e. g x \<le> g e) cands"
    using assms by (auto simp: list_all_iff intro: less_imp_le)
  have "\<not> list_all (\<lambda>e. g p \<le> g e) cands" if "p \<in> set pre" for p
  proof
    assume "list_all (\<lambda>e. g p \<le> g e) cands"
    then have "g p \<le> g x" using assms(1) by (simp add: list_all_iff)
    with assms(2) that show False by fastforce
  qed
  then have "find (\<lambda>y. list_all (\<lambda>e. g y \<le> g e) cands) pre = None"
    by (simp add: find_None_iff)
  with x_min show ?thesis
    unfolding first_nearest_def
    by (subst (2) assms(1)) (simp add: find_app)
qed

lemma first_nearest_Some:
  assumes "first_nearest g cands = Some x"
  shows "\<exists>pre post. cands = pre @ x # post \<and> (\<forall>e\<in>set pre. g x < g e) \<and> (\<forall>e\<in>set post. g x \<le> g e)"
proof -
  from assms obtain i where i: "i < length cands" "cands ! i = x"
      "list_all (\<lambda>e. g x \<le> g e) cands"
      "\<forall>j<i. \<not> list_all (\<lambda>e. g (cands ! j) \<le> g e) cands"
    unfolding first_nearest_def find_Some_iff by blast
  define pre where "pre = take i cands"
  define post where "post = drop (Suc i) cands"
  have split: "cands = pre @ x # post"
    using id_take_nth_drop [OF i(1)] i(2) by (simp add: pre_def post_def)
  have "g x < g e" if "e \<in> set pre" for e
  proof -
    from that obtain j where j: "j < i" "cands ! j = e"
      using i(1) by (auto simp: pre_def in_set_conv_nth)
    with i(4) have "\<not> list_all (\<lambda>e'. g e \<le> g e') cands" by blast
    then obtain e' where e': "e' \<in> set cands" "g e' < g e"
      by (auto simp: list_all_iff not_le)
    with i(3) have "g x \<le> g e'" by (simp add: list_all_iff)
    with e' show ?thesis by simp
  qed
  moreover have "g x \<le> g e" if "e \<in> set post" for e
    using that i(3) split by (simp add: list_all_iff)
  ultimately show ?thesis using split by blast
qed

lemma foldl_reduce_step:
  fixes g :: "elem \<Rightarrow> int"
  defines "acc cands \<equiv> foldl (reduce_step (\<lambda>e. Num (g e))) \<lparr>distance = PosInf, element = None\<rparr> cands"
  shows "(cands = [] \<and> acc cands = \<lparr>distance = PosInf, element = None\<rparr>) \<or>
         (\<exists>pre x post. cands = pre @ x # post \<and>
            acc cands = \<lparr>distance = Num (g x), element = Some x\<rparr> \<and>
            (\<forall>e\<in>set pre. g x < g e) \<and> (\<forall>e\<in>set post. g x \<le> g e))"
proof (induction cands rule: rev_induct)
  case Nil
  show ?case by (simp add: acc_def)
next
  case (snoc y ys)
  from snoc.IH show ?case
  proof (elim disjE conjE exE)
    assume "ys = []" "acc ys = \<lparr>distance = PosInf, element = None\<rparr>"
    then have "ys @ [y] = [] @ y # []"
      and "acc (ys @ [y]) = \<lparr>distance = Num (g y), element = Some y\<rparr>"
      by (simp_all add: acc_def reduce_step_def)
    then show ?thesis by (intro disjI2 exI [of _ "[]"] exI [of _ y]) simp
  next
    fix pre x post
    assume ys: "ys = pre @ x # post"
      and a: "acc ys = \<lparr>distance = Num (g x), element = Some x\<rparr>"
      and pre: "\<forall>e\<in>set pre. g x < g e"
      and post: "\<forall>e\<in>set post. g x \<le> g e"
    have step: "acc (ys @ [y]) = reduce_step (\<lambda>e. Num (g e)) (acc ys) y"
      by (simp add: acc_def)
    show ?thesis
    proof (cases "g y < g x")
      case True
      with a step have "acc (ys @ [y]) = \<lparr>distance = Num (g y), element = Some y\<rparr>"
        by (simp add: reduce_step_def)
      moreover have "\<forall>e\<in>set ys. g y < g e"
        using True pre post ys by fastforce
      ultimately show ?thesis
        by (intro disjI2 exI [of _ ys] exI [of _ y] exI [of _ "[]"]) simp
    next
      case False
      with a step have "acc (ys @ [y]) = \<lparr>distance = Num (g x), element = Some x\<rparr>"
        by (simp add: reduce_step_def)
      moreover have "\<forall>e\<in>set (post @ [y]). g x \<le> g e"
        using False post by auto
      ultimately show ?thesis
        using ys pre
        by (intro disjI2 exI [of _ pre] exI [of _ x] exI [of _ "post @ [y]"]) simp
    qed
  qed
qed

lemma reduce_first_nearest:
  "reduce (\<lambda>e. Num (g e)) cands = first_nearest g cands"
  using foldl_reduce_step [of cands g]
  by (auto simp: reduce_def first_nearest_Nil first_nearest_split)

subsection \<open>What \<open>scrollTo\<close> may change\<close>

lemma scrollTo_frame:
  assumes "scrollTo n dm el d = Some dm'"
  shows "\<exists>sl st. dm' = dm\<lparr>scrollLeft := sl, scrollTop := st,
                           effects := effects dm @ [ScrollTo el d]\<rparr>"
proof -
  let ?dm = "dm\<lparr>effects := effects dm @ [ScrollTo el d]\<rparr>"
  have keep: "\<exists>sl st. ?dm = dm\<lparr>scrollLeft := sl, scrollTop := st,
                                 effects := effects dm @ [ScrollTo el d]\<rparr>"
    by (intro exI [of _ "scrollLeft dm"] exI [of _ "scrollTop dm"]) simp
  have left: "\<exists>sl st. set_scrollLeft c v ?dm = dm\<lparr>scrollLeft := sl, scrollTop := st,
                                 effects := effects dm @ [ScrollTo el d]\<rparr>" for c v
    by (intro exI [of _ "(scrollLeft dm)(c := v)"] exI [of _ "scrollTop dm"])
       (simp add: set_scrollLeft_def)
  have top: "\<exists>sl st. set_scrollTop c v ?dm = dm\<lparr>scrollLeft := sl, scrollTop := st,
                                 effects := effects dm @ [ScrollTo el d]\<rparr>" for c v
    by (intro exI [of _ "scrollLeft dm"] exI [of _ "(scrollTop dm)(c := v)"])
       (simp add: set_scrollTop_def)
  from assms have "dm' = ?dm \<or> (\<exists>c v. dm' = set_scrollLeft c v ?dm)
                     \<or> (\<exists>c v. dm' = set_scrollTop c v ?dm)"
    unfolding scrollTo_def Let_def
    by (auto split: if_splits option.splits)
  with keep left top show ?thesis by metis
qed

lemma inScrollContainerViewport_effects:
  "inScrollContainerViewport n (dm\<lparr>effects := fx\<rparr>) el = inScrollContainerViewport n dm el"
  by (simp add: inScrollContainerViewport_def)

lemma inViewport_effects:
  "inViewport (dm\<lparr>effects := fx\<rparr>) el = inViewport dm el"
  by (simp add: inViewport_def)

lemma scrollTo_both_visible:
  assumes "inScrollContainerViewport n dm el" "inViewport dm el"
  shows "scrollTo n dm el d = Some (dm\<lparr>effects := effects dm @ [ScrollTo el d]\<rparr>)"
  using assms
  by (simp add: scrollTo_def Let_def inScrollContainerViewport_effects inViewport_effects)

subsection \<open>What \<open>unselect\<close> and \<open>select\<close> change\<close>

lemma unselect_eq:
  "unselect n dm =
     (if selected n = Null then n else n\<lparr>selected := SelectedMethod\<rparr>,
      dm\<lparr>classList := unmarked_classes n dm, effects := effects dm @ unmark_effects n\<rparr>)"
  by (cases "selected n") (simp_all add: unselect_def unmarked_classes_def unmark_effects_def)

lemma focus_frame:
  "\<exists>sl st. focus e dm = dm\<lparr>scrollLeft := sl, scrollTop := st, activeElement := Some e,
                                effects := effects dm @ [Focus e]\<rparr>"
proof (cases "inViewport dm e")
  case True
  then show ?thesis
    by (intro exI [of _ "scrollLeft dm"] exI [of _ "scrollTop dm"]) (simp add: focus_def)
next
  case False
  then show ?thesis
    by (intro exI [of _ "intoViewScrollLeft dm e"] exI [of _ "intoViewScrollTop dm e"])
       (simp add: focus_def)
qed

lemma select_frame:
  assumes "selected n \<noteq> Elem e" "select n dm (Some e) d = Some (n1, dm1)"
  shows "\<exists>sl st. n1 = n\<lparr>selected := Elem e\<rparr> \<and>
           dm1 = dm\<lparr>scrollLeft := sl, scrollTop := st,
                    classList := marked_classes n dm e,
                    activeElement := (if matches_input dm e then Some e else activeElement dm),
                    effects := effects dm @ unmark_effects n @ scroll_effects e d
                                 @ [mark_effect n dm e]\<rparr> \<and>
           (scroll_effects e d = [] \<and> \<not> matches_input dm e \<longrightarrow>
              sl = scrollLeft dm \<and> st = scrollTop dm)"
proof -
  define n0 where "n0 = (if selected n = Null then n else n\<lparr>selected := SelectedMethod\<rparr>)"
  define dm0 where "dm0 = dm\<lparr>classList := unmarked_classes n dm,
                              effects := effects dm @ unmark_effects n\<rparr>"
  have u: "unselect n dm = (n0, dm0)"
    by (simp add: unselect_eq n0_def dm0_def)
  have n0: "n0\<lparr>selected := Elem e\<rparr> = n\<lparr>selected := Elem e\<rparr>" "options n0 = options n"
    by (simp_all add: n0_def)
  from assms u obtain dm2 where
    s: "(case d of None \<Rightarrow> Some dm0
         | Some dir \<Rightarrow> if dir = [] then Some dm0 else scrollTo n0 dm0 e dir) = Some dm2"
    and n1: "n1 = n0\<lparr>selected := Elem e\<rparr>"
    and dm1: "dm1 = (if matches_input dm2 e then focus e dm2
                     else u_addClass (opt_selected (options n0)) e dm2)"
    by (auto simp: select_def split: option.splits)
  have "\<exists>sl st. dm2 = dm0\<lparr>scrollLeft := sl, scrollTop := st,
                            effects := effects dm0 @ scroll_effects e d\<rparr> \<and>
          (scroll_effects e d = [] \<longrightarrow> sl = scrollLeft dm0 \<and> st = scrollTop dm0)"
  proof (cases "scroll_effects e d = []")
    case True
    with s have "dm2 = dm0"
      by (auto simp: scroll_effects_def split: option.splits if_splits)
    with True show ?thesis
      by (intro exI [of _ "scrollLeft dm0"] exI [of _ "scrollTop dm0"]) simp
  next
    case False
    then obtain dir where dir: "d = Some dir" "dir \<noteq> []" "scroll_effects e d = [ScrollTo e dir]"
      by (auto simp: scroll_effects_def split: option.splits if_splits)
    with s have "scrollTo n0 dm0 e dir = Some dm2" by simp
    from scrollTo_frame [OF this] dir(3) show ?thesis by auto
  qed
  then obtain sl st where
    dm2: "dm2 = dm0\<lparr>scrollLeft := sl, scrollTop := st,
                     effects := effects dm0 @ scroll_effects e d\<rparr>"
    and same: "scroll_effects e d = [] \<longrightarrow> sl = scrollLeft dm0 \<and> st = scrollTop dm0"
    by blast
  have inp: "matches_input dm2 e = matches_input dm e"
    by (simp add: dm2 dm0_def)
  show ?thesis
  proof (cases "matches_input dm e")
    case True
    from focus_frame [of e dm2] obtain sl' st' where
      "focus e dm2 = dm2\<lparr>scrollLeft := sl', scrollTop := st', activeElement := Some e,
                          effects := effects dm2 @ [Focus e]\<rparr>"
      by blast
    with True inp dm1 have "dm1 = dm\<lparr>scrollLeft := sl', scrollTop := st',
                    classList := marked_classes n dm e,
                    activeElement := (if matches_input dm e then Some e else activeElement dm),
                    effects := effects dm @ unmark_effects n @ scroll_effects e d
                                 @ [mark_effect n dm e]\<rparr>"
      by (simp add: dm2 dm0_def marked_classes_def mark_effect_def)
    with True n1 n0 show ?thesis by auto
  next
    case False
    with inp dm1 have "dm1 = dm\<lparr>scrollLeft := sl, scrollTop := st,
                    classList := marked_classes n dm e,
                    activeElement := (if matches_input dm e then Some e else activeElement dm),
                    effects := effects dm @ unmark_effects n @ scroll_effects e d
                                 @ [mark_effect n dm e]\<rparr>"
      by (simp add: dm2 dm0_def n0 u_addClass_def marked_classes_def mark_effect_def)
    moreover from same have "scroll_effects e d = [] \<longrightarrow> sl = scrollLeft dm \<and> st = scrollTop dm"
      by (simp add: dm0_def)
    ultimately show ?thesis using n1 n0 by auto
  qed
qed

lemma select_noop:
  "select n dm None d = Some (n, dm)"
  "selected n = Elem e \<Longrightarrow> select n dm (Some e) d = Some (n, dm)"
  by (simp_all add: select_def)

lemma select_returns_without_scroll:
  assumes "scroll_effects e d = []"
  shows "\<exists>n1 dm1. select n dm (Some e) d = Some (n1, dm1)"
  using assms
  by (auto simp: select_def scroll_effects_def split: option.splits if_splits prod.splits)

lemma disable_dom:
  "snd (disable n dm) =
     dm\<lparr>listeners := (case keydownHandler n of None \<Rightarrow> listeners dm
                        | Some h \<Rightarrow> remove1 h (listeners dm)),
        classList := unmarked_classes n dm,
        effects := effects dm @ unmark_effects n\<rparr>"
  by (cases "keydownHandler n"; cases "selected n")
     (simp_all add: disable_def unselect_eq removeEventListener_def unmarked_classes_def Let_def)

lemma destroy_listeners:
  "listeners (snd (destroy n dm)) = listeners (snd (disable n dm))"
  by (simp add: destroy_def split: prod.splits)

lemma disable_navigator:
  "fst (disable n dm) =
     (if selected n = Null then n else n\<lparr>selected := SelectedMethod\<rparr>)\<lparr>enabled := Some False\<rparr>"
  by (simp add: disable_def unselect_eq Let_def)

subsection \<open>What \<open>enable\<close> changes\<close>

lemma enable_eq:
  "enable n dm =
     (n\<lparr>elements := Some (querySelectorAll dm (container n) (opt_selector (options n))),
        keydownHandler := Some (next_function dm), enabled := Some True\<rparr>,
      addEventListener (next_function dm) (dm\<lparr>next_function := Suc (next_function dm)\<rparr>))"
  by (simp add: enable_def getElements_def Let_def)

lemma enable_listeners:
  assumes "\<forall>h\<in>set (listeners dm). h < next_function dm"
  shows "listeners (snd (enable n dm)) = listeners dm @ [next_function dm]"
    and "next_function (snd (enable n dm)) = Suc (next_function dm)"
    and "keydownHandler (fst (enable n dm)) = Some (next_function dm)"
proof -
  from assms have "next_function dm \<notin> set (listeners dm)" by auto
  then show "listeners (snd (enable n dm)) = listeners dm @ [next_function dm]"
    by (simp add: enable_eq addEventListener_def)
  show "next_function (snd (enable n dm)) = Suc (next_function dm)"
    by (simp add: enable_eq addEventListener_def)
  show "keydownHandler (fst (enable n dm)) = Some (next_function dm)"
    by (simp add: enable_eq)
qed

subsection \<open>The first selection by a key\<close>

lemma handleKeydown_Null:
  assumes "selected n = Null" "elements n = Some (e # es)"
    and "keys n (which ev) = Some d" "d \<noteq> []"
  shows "handleKeydown n dm ev =
           (case scrollTo n dm e d of
              None \<Rightarrow> None
            | Some dm1 \<Rightarrow>
                Some (Inr (ev\<lparr>defaultPrevented := True\<rparr>, n\<lparr>selected := Elem e\<rparr>,
                           if matches_input dm e then focus e dm1
                           else u_addClass (opt_selected (options n)) e dm1)))"
proof (cases "scrollTo n dm e d")
  case None
  with assms show ?thesis
    by (simp add: handleKeydown_def select_def unselect_def)
next
  case (Some dm1)
  from scrollTo_frame [OF Some] have "matches_input dm1 = matches_input dm" by auto
  with Some assms show ?thesis
    by (simp add: handleKeydown_def select_def unselect_def)
qed

subsection \<open>The highlight class follows the selection\<close>

lemma highlight_inv_unmarked:
  assumes "highlight_inv n dm"
  shows "{x. opt_selected (options n) \<in> unmarked_classes n dm x} = {}"
proof (cases "selected n")
  case (Elem p)
  with assms have "{e. opt_selected (options n) \<in> classList dm e} \<subseteq> {p}"
    by (auto simp: highlight_inv_def highlighted_def split: if_splits)
  with Elem show ?thesis
    by (auto simp: unmarked_classes_def)
qed (use assms in \<open>auto simp: highlight_inv_def highlighted_def unmarked_classes_def\<close>)

lemma highlight_inv_select:
  assumes "highlight_inv n dm" "select n dm el d = Some (n1, dm1)"
  shows "highlight_inv n1 dm1"
proof (cases "el = None \<or> (\<exists>e. el = Some e \<and> selected n = Elem e)")
  case True
  with assms(2) have "n1 = n" "dm1 = dm" by (auto simp: select_noop)
  with assms(1) show ?thesis by simp
next
  case False
  then obtain e where e: "el = Some e" "selected n \<noteq> Elem e" by auto
  from select_frame [OF e(2) assms(2) [unfolded e(1)]]
  have n1: "selected n1 = Elem e" "options n1 = options n"
    and dm1: "classList dm1 = marked_classes n dm e" "matches_input dm1 = matches_input dm"
    by auto
  from highlight_inv_unmarked [OF assms(1)]
  have "{x. opt_selected (options n) \<in> marked_classes n dm e x}
          = (if matches_input dm e then {} else {e})"
    by (auto simp: marked_classes_def)
  with n1 dm1 show ?thesis by (simp add: highlight_inv_def highlighted_def)
qed

lemma highlight_inv_unselect:
  assumes "highlight_inv n dm"
  shows "highlight_inv (fst (unselect n dm)) (snd (unselect n dm))"
  using highlight_inv_unmarked [OF assms]
  by (cases "selected n") (simp_all add: unselect_eq highlight_inv_def highlighted_def)

lemma highlight_inv_disable:
  assumes "highlight_inv n dm"
  shows "highlight_inv (fst (disable n dm)) (snd (disable n dm))"
  using highlight_inv_unmarked [OF assms]
  by (cases "selected n")
     (simp_all add: disable_dom disable_navigator highlight_inv_def highlighted_def)

lemma highlight_inv_enable:
  assumes "highlight_inv n dm"
  shows "highlight_inv (fst (enable n dm)) (snd (enable n dm))"
proof -
  have "highlighted (fst (enable n dm)) (snd (enable n dm)) = highlighted n dm"
    "selected (fst (enable n dm)) = selected n"
    "matches_input (snd (enable n dm)) = matches_input dm"
    by (simp_all add: enable_eq addEventListener_def highlighted_def)
  with assms show ?thesis by (simp only: highlight_inv_def)
qed

lemma highlight_inv_handleKeydown:
  assumes "highlight_inv n dm" "handleKeydown n dm ev = Some (Inr (ev1, n1, dm1))"
  shows "highlight_inv n1 dm1"
proof -
  from assms(2) have "(n1 = n \<and> dm1 = dm) \<or> (\<exists>el d. select n dm el d = Some (n1, dm1))"
    unfolding handleKeydown_def Let_def
    by (auto split: option.splits if_splits sum.splits)
  with assms(1) show ?thesis
    by (auto intro: highlight_inv_select)
qed

section \<open>An unrecognised direction\<close>

text \<open>
  C7. A direction that is none of \<open>right\<close>, \<open>left\<close>, \<open>down\<close>, \<open>up\<close>, passed to
  \<open>getNextElement\<close>, makes it throw the error "getNextElement: invalid direction value",
  whatever the navigator and the DOM are: no result is returned.
\<close>

theorem getNextElement_invalid_direction:
  assumes "direction \<noteq> DIRECTION_right" "direction \<noteq> DIRECTION_left"
    "direction \<noteq> DIRECTION_down" "direction \<noteq> DIRECTION_up"
  shows "getNextElement n dm direction = Inl (Error ''getNextElement: invalid direction value'')"
  using assms by (simp add: getNextElement_def)

theorem getNextElement_invalid_direction_witness:
  "''diagonal'' \<noteq> DIRECTION_right \<and> ''diagonal'' \<noteq> DIRECTION_left \<and>
   ''diagonal'' \<noteq> DIRECTION_down \<and> ''diagonal'' \<noteq> DIRECTION_up \<and>
   getNextElement (grid_nav\<lparr>selected := Elem 1\<rparr>) grid_dom ''diagonal''
     = Inl (Error ''getNextElement: invalid direction value'')"
  using getNextElement_invalid_direction [of "''diagonal''" "grid_nav\<lparr>selected := Elem 1\<rparr>" grid_dom]
  by simp

section \<open>Right and Left\<close>



section \<open>Down and Up\<close>

text \<open>
  C1, as amended. With an element selected and the candidates stored, \<open>getNextElement\<close>
  for Down takes the anchor at the bottom-left corner of the selection, keeps the
  candidates whose left offset is at least 0 and whose top offset is at least the anchor's
  top, and returns the first of them, in sequence order, whose Manhattan distance to the
  anchor is minimal. For Up the anchor is (selected.left, selected.top - 1), the
  candidates kept are those whose top offset is at most the anchor's top, and the choice
  among them is the same. With no candidate kept the result is absent.
\<close>

theorem getNextElement_down_up:
  assumes "selected n = Elem s" "elements n = Some els"
  shows "getNextElement n dm DIRECTION_down =
           Inr (first_nearest
                  (manhattan dm (offsetLeft dm s) (offsetTop dm s + offsetHeight dm s))
                  (filter (\<lambda>el. 0 \<le> offsetLeft dm el \<and>
                                 offsetTop dm s + offsetHeight dm s \<le> offsetTop dm el) els)) \<and>
         getNextElement n dm DIRECTION_up =
           Inr (first_nearest
                  (manhattan dm (offsetLeft dm s) (offsetTop dm s - 1))
                  (filter (\<lambda>el. offsetTop dm el \<le> offsetTop dm s - 1) els))"
proof -
  have down: "(\<lambda>el. js_add (js_abs (js_sub (Num (offsetLeft dm el)) (Num l)))
                          (js_abs (js_sub (Num (offsetTop dm el)) (Num t))))
              = (\<lambda>el. Num (manhattan dm l t el))" for l t
    by (simp add: js_sub_def manhattan_def)
  have up: "(\<lambda>el. js_add (js_abs (js_sub (Num l) (Num (offsetLeft dm el))))
                        (js_abs (js_sub (Num t) (Num (offsetTop dm el)))))
            = (\<lambda>el. Num (manhattan dm l t el))" for l t
    by (simp add: js_sub_def manhattan_def abs_minus_commute)
  have one: "js_sub (Num t) (Num 1) = Num (t - 1)" for t
    by (simp add: js_sub_def)
  have "getNextElement n dm DIRECTION_down =
          Inr (first_nearest
                 (manhattan dm (offsetLeft dm s) (offsetTop dm s + offsetHeight dm s))
                 (filter (\<lambda>el. 0 \<le> offsetLeft dm el \<and>
                                offsetTop dm s + offsetHeight dm s \<le> offsetTop dm el) els))"
    using assms
    by (simp add: getNextElement_def elementsAfter_def js_ge_def down reduce_first_nearest)
  moreover have "getNextElement n dm DIRECTION_up =
          Inr (first_nearest
                 (manhattan dm (offsetLeft dm s) (offsetTop dm s - 1))
                 (filter (\<lambda>el. offsetTop dm el \<le> offsetTop dm s - 1) els))"
    using assms
    by (simp add: getNextElement_def elementsBefore_def one up reduce_first_nearest)
  ultimately show ?thesis by simp
qed

theorem getNextElement_down_up_witness:
  "getNextElement (grid_nav\<lparr>selected := Elem 1\<rparr>) grid_dom DIRECTION_down = Inr (Some 3) \<and>
   getNextElement (grid_nav\<lparr>selected := Elem 1\<rparr>) grid_dom DIRECTION_up = Inr None \<and>
   first_nearest (manhattan grid_dom 0 50) [3, 4] = Some 3"
  using getNextElement_down_up [of "grid_nav\<lparr>selected := Elem 1\<rparr>" 1 "[1, 2, 3, 4]" grid_dom]
  by (simp add: grid_nav_simps grid_dom_def first_nearest_def manhattan_def)

theorem getNextElement_down_negative_left_counterexample:
  "selected c1_nav = Elem 1 \<and> elements c1_nav = Some [1, 2, 3] \<and>
   offsetLeft c1_dom 1 = 0 \<and> offsetTop c1_dom 1 + offsetHeight c1_dom 1 = 50 \<and>
   offsetTop c1_dom 2 = 50 \<and> offsetTop c1_dom 3 = 50 \<and>
   manhattan c1_dom 0 50 2 = 10 \<and> manhattan c1_dom 0 50 3 = 100 \<and>
   getNextElement c1_nav c1_dom DIRECTION_down = Inr (Some 3)"
  by (simp add: c1_nav_def c1_dom_def grid_dom_def enable_def getElements_def constructor_def
      init_def DEFAULTS_def Let_def manhattan_def getNextElement_def elementsAfter_def
      js_ge_def js_sub_def reduce_def reduce_step_def)

section \<open>Scrolling an element into view\<close>

text \<open>
  C5, as amended. For an element whose bottom edge lies beyond the visible bottom of the
  scroll container, \<open>scrollTo\<close> with direction Down sets the container's \<open>scrollTop\<close> to
  \<open>\<Delta> = elementTop - containerTop - (containerHeight - elementHeight)\<close> and changes
  nothing else of the geometry; so the offset grows by \<open>\<Delta>\<close> minus its previous value,
  which is the distance by which the bottom edge lay beyond the visible bottom. When both
  visibility checks pass, \<open>scrollTo\<close> returns with no scroll offset changed, for every
  direction.
\<close>

theorem scrollTo_down_sets_delta:
  "(offsetTop dm el + offsetHeight dm el - scrollTop dm (scroll_container n)
      > offsetTop dm (scroll_container n) + offsetHeight dm (scroll_container n) \<longrightarrow>
    scrollTo n dm el DIRECTION_down =
      Some (dm\<lparr>scrollTop := (scrollTop dm)(scroll_container n := delta_down n dm el),
               effects := effects dm @ [ScrollTo el DIRECTION_down]\<rparr>) \<and>
    delta_down n dm el - scrollTop dm (scroll_container n) =
      (offsetTop dm el + offsetHeight dm el - scrollTop dm (scroll_container n))
        - (offsetTop dm (scroll_container n) + offsetHeight dm (scroll_container n))) \<and>
   (inScrollContainerViewport n dm el \<and> inViewport dm el \<longrightarrow>
    scrollTo n dm el d = Some (dm\<lparr>effects := effects dm @ [ScrollTo el d]\<rparr>))"
proof (intro conjI impI)
  assume beyond: "offsetTop dm el + offsetHeight dm el - scrollTop dm (scroll_container n)
      > offsetTop dm (scroll_container n) + offsetHeight dm (scroll_container n)"
  then have "\<not> inScrollContainerViewport n (dm\<lparr>effects := effects dm @ [ScrollTo el DIRECTION_down]\<rparr>) el"
    by (simp add: inScrollContainerViewport_def Let_def)
  then show "scrollTo n dm el DIRECTION_down =
      Some (dm\<lparr>scrollTop := (scrollTop dm)(scroll_container n := delta_down n dm el),
               effects := effects dm @ [ScrollTo el DIRECTION_down]\<rparr>)"
    by (simp add: scrollTo_def Let_def set_scrollTop_def delta_down_def)
  show "delta_down n dm el - scrollTop dm (scroll_container n) =
      (offsetTop dm el + offsetHeight dm el - scrollTop dm (scroll_container n))
        - (offsetTop dm (scroll_container n) + offsetHeight dm (scroll_container n))"
    by (simp add: delta_down_def)
next
  assume "inScrollContainerViewport n dm el \<and> inViewport dm el"
  then show "scrollTo n dm el d = Some (dm\<lparr>effects := effects dm @ [ScrollTo el d]\<rparr>)"
    by (simp add: scrollTo_both_visible)
qed

theorem scrollTo_down_sets_delta_witness:
  "offsetTop c5_dom 5 + offsetHeight c5_dom 5 - scrollTop c5_dom (scroll_container grid_nav)
     > offsetTop c5_dom (scroll_container grid_nav) + offsetHeight c5_dom (scroll_container grid_nav) \<and>
   scrollTo grid_nav c5_dom 5 DIRECTION_down =
     Some (c5_dom\<lparr>scrollTop := (scrollTop c5_dom)(0 := 50),
                  effects := [ScrollTo 5 DIRECTION_down]\<rparr>) \<and>
   inScrollContainerViewport grid_nav grid_dom 1 \<and> inViewport grid_dom 1 \<and>
   scrollTo grid_nav grid_dom 1 DIRECTION_up = Some (grid_dom\<lparr>effects := [ScrollTo 1 DIRECTION_up]\<rparr>)"
  using scrollTo_down_sets_delta [where dm = c5_dom and el = 5 and n = grid_nav]
        scrollTo_down_sets_delta [where dm = grid_dom and el = 1 and n = grid_nav and d = DIRECTION_up]
  by (simp add: grid_nav_simps c5_dom_def grid_dom_def delta_down_def
      inScrollContainerViewport_def inViewport_def Let_def)

theorem scrollTo_down_increase_counterexample:
  "scroll_container grid_nav = 0 \<and>
   offsetTop c5_dom 5 + offsetHeight c5_dom 5 - scrollTop c5_dom 0
     > offsetTop c5_dom 0 + offsetHeight c5_dom 0 \<and>
   offsetTop c5_dom 5 - offsetTop c5_dom 0 - (offsetHeight c5_dom 0 - offsetHeight c5_dom 5) = 50 \<and>
   scrollTop c5_dom 0 = 10 \<and>
   scrollTo grid_nav c5_dom 5 DIRECTION_down \<noteq> None \<and>
   scrollTop (the (scrollTo grid_nav c5_dom 5 DIRECTION_down)) 0 = 50 \<and>
   scrollTop (the (scrollTo grid_nav c5_dom 5 DIRECTION_down)) 0 - scrollTop c5_dom 0 = 40"
  by (simp add: grid_nav_simps c5_dom_def grid_dom_def scrollTo_def Let_def
      inScrollContainerViewport_def set_scrollTop_def)

section \<open>Selecting without a direction\<close>

text \<open>
  C9, as amended. \<open>select\<close> called without a direction returns and never invokes
  \<open>scrollTo\<close>, whatever the element is; for an element that is not an \<open>input\<close> it leaves
  every \<open>scrollLeft\<close> and \<open>scrollTop\<close> of the DOM as it was, wherever the element lies.
\<close>

theorem select_without_direction:
  "\<exists>n1 dm1. select n dm el None = Some (n1, dm1) \<and>
     filter is_scroll (new_effects dm dm1) = [] \<and>
     ((\<forall>e. el = Some e \<longrightarrow> \<not> matches_input dm e) \<longrightarrow>
        scrollLeft dm1 = scrollLeft dm \<and> scrollTop dm1 = scrollTop dm)"
proof (cases el)
  case None
  then show ?thesis by (simp add: select_noop new_effects_def)
next
  case (Some e)
  show ?thesis
  proof (cases "selected n = Elem e")
    case True
    with Some show ?thesis by (simp add: select_noop new_effects_def)
  next
    case False
    have none: "scroll_effects e None = []" by (simp add: scroll_effects_def)
    from select_returns_without_scroll [OF none] obtain n1 dm1
      where r: "select n dm (Some e) None = Some (n1, dm1)" by blast
    from select_frame [OF False r] none
    have fx: "new_effects dm dm1 = unmark_effects n @ [mark_effect n dm e]"
      and same: "\<not> matches_input dm e \<longrightarrow>
                   scrollLeft dm1 = scrollLeft dm \<and> scrollTop dm1 = scrollTop dm"
      by (auto simp: new_effects_def)
    have "filter is_scroll (unmark_effects n @ [mark_effect n dm e]) = []"
      by (cases "selected n") (simp_all add: unmark_effects_def mark_effect_def)
    with fx same r Some show ?thesis by simp
  qed
qed

theorem select_without_direction_witness:
  "\<not> matches_input c5_dom 5 \<and>
   \<not> inScrollContainerViewport grid_nav c5_dom 5 \<and>
   select grid_nav c5_dom (Some 5) None
     = Some (grid_nav\<lparr>selected := Elem 5\<rparr>, u_addClass ''selected'' 5 c5_dom) \<and>
   scrollTop (u_addClass ''selected'' 5 c5_dom) = scrollTop c5_dom \<and>
   scrollLeft (u_addClass ''selected'' 5 c5_dom) = scrollLeft c5_dom \<and>
   new_effects c5_dom (u_addClass ''selected'' 5 c5_dom) = [AddClass ''selected'' 5]"
  using select_without_direction [of grid_nav c5_dom "Some 5"]
  by (simp add: grid_nav_simps c5_dom_def grid_dom_def select_def unselect_def DEFAULTS_def
      inScrollContainerViewport_def Let_def u_addClass_def new_effects_def)

theorem select_input_without_direction_counterexample:
  "selected grid_nav = Null \<and> matches_input c9_dom 5 \<and> \<not> inViewport c9_dom 5 \<and>
   select grid_nav c9_dom (Some 5) None
     = Some (grid_nav\<lparr>selected := Elem 5\<rparr>, focus 5 c9_dom) \<and>
   new_effects c9_dom (focus 5 c9_dom) = [Focus 5] \<and>
   scrollTop c9_dom 9 = 0 \<and>
   scrollTop (focus 5 c9_dom) 9 = 150"
  by (simp add: grid_nav_simps c9_dom_def grid_dom_def select_def unselect_def focus_def
      inViewport_def Let_def new_effects_def)

section \<open>Selecting nothing, or the selected element\<close>

text \<open>
  C6. \<open>select\<close> with no element, or with the element that is selected, returns without
  an error and leaves the navigator and the DOM (its history of effects included) as they
  are. So a second \<open>select\<close> of the same element right after a first changes nothing, and
  over the two calls, made on an element that was not selected before, there is exactly
  one marking (the class added to, or the focus given to, that element) and at most one
  invocation of \<open>scrollTo\<close>.
\<close>

theorem select_null_or_selected:
  "select n dm None d = Some (n, dm) \<and>
   (selected n = Elem e \<longrightarrow> select n dm (Some e) d = Some (n, dm)) \<and>
   (selected n \<noteq> Elem e \<and> select n dm (Some e) d = Some (n1, dm1) \<and>
    select n1 dm1 (Some e) d' = Some (n2, dm2) \<longrightarrow>
      n2 = n1 \<and> dm2 = dm1 \<and>
      filter is_mark (new_effects dm dm2) = [mark_effect n dm e] \<and>
      length (filter is_scroll (new_effects dm dm2)) \<le> 1)"
proof (intro conjI impI)
  show "select n dm None d = Some (n, dm)" by (rule select_noop)
  show "select n dm (Some e) d = Some (n, dm)" if "selected n = Elem e"
    using that by (rule select_noop)
next
  assume a: "selected n \<noteq> Elem e \<and> select n dm (Some e) d = Some (n1, dm1) \<and>
    select n1 dm1 (Some e) d' = Some (n2, dm2)"
  then have first: "select n dm (Some e) d = Some (n1, dm1)" and ne: "selected n \<noteq> Elem e"
    by simp_all
  from select_frame [OF ne first] have sel: "selected n1 = Elem e"
    and fx: "new_effects dm dm1 = unmark_effects n @ scroll_effects e d @ [mark_effect n dm e]"
    by (auto simp: new_effects_def)
  from a sel show same: "n2 = n1" "dm2 = dm1" by (simp_all add: select_noop)
  have "filter is_mark (unmark_effects n) = []" "filter is_scroll (unmark_effects n) = []"
    by (cases "selected n"; simp add: unmark_effects_def)+
  moreover have "filter is_mark (scroll_effects e d) = []" "length (filter is_scroll (scroll_effects e d)) \<le> 1"
    by (simp_all add: scroll_effects_def split: option.splits)
  moreover have "is_mark (mark_effect n dm e)" "\<not> is_scroll (mark_effect n dm e)"
    by (simp_all add: mark_effect_def)
  ultimately show "filter is_mark (new_effects dm dm2) = [mark_effect n dm e]"
    "length (filter is_scroll (new_effects dm dm2)) \<le> 1"
    using fx same by simp_all
qed

theorem select_null_or_selected_witness:
  "select grid_nav grid_dom None (Some DIRECTION_down) = Some (grid_nav, grid_dom) \<and>
   selected grid_nav \<noteq> Elem 2 \<and>
   select grid_nav grid_dom (Some 2) (Some DIRECTION_down)
     = Some (grid_nav\<lparr>selected := Elem 2\<rparr>, c6_dom) \<and>
   select (grid_nav\<lparr>selected := Elem 2\<rparr>) c6_dom (Some 2) (Some DIRECTION_down)
     = Some (grid_nav\<lparr>selected := Elem 2\<rparr>, c6_dom) \<and>
   filter is_mark (new_effects grid_dom c6_dom) = [AddClass ''selected'' 2] \<and>
   length (filter is_scroll (new_effects grid_dom c6_dom)) = 1"
  using select_null_or_selected [of grid_nav grid_dom "Some DIRECTION_down" 2
          "grid_nav\<lparr>selected := Elem 2\<rparr>" c6_dom "Some DIRECTION_down"
          "grid_nav\<lparr>selected := Elem 2\<rparr>" c6_dom]
  by (simp add: grid_nav_simps c6_dom_def grid_dom_def select_def unselect_def scrollTo_def
      inScrollContainerViewport_def inViewport_def Let_def DEFAULTS_def u_addClass_def
      new_effects_def mark_effect_def)

section \<open>Focus outlives the selection\<close>

text \<open>
  C10. \<open>unselect\<close> changes the DOM in one place only: it removes the configured class
  from the element selected (and records that); \<open>disable\<close> does the same and removes the
  listener. The active element is the same before and after both. So when an \<open>input\<close>
  element is selected it gets the focus and not the class, and after \<open>unselect\<close> or
  \<open>disable\<close> it is no longer selected but is still the active element.
\<close>

theorem unselect_leaves_focus:
  "(selected n = Elem p \<longrightarrow>
      snd (unselect n dm) =
        dm\<lparr>classList := (classList dm)(p := classList dm p - {opt_selected (options n)}),
           effects := effects dm @ [RemoveClass (opt_selected (options n)) p]\<rparr>) \<and>
   activeElement (snd (unselect n dm)) = activeElement dm \<and>
   activeElement (snd (disable n dm)) = activeElement dm \<and>
   classList (snd (disable n dm)) = classList (snd (unselect n dm)) \<and>
   (selected n \<noteq> Elem e \<and> matches_input dm e \<and> select n dm (Some e) d = Some (n1, dm1) \<longrightarrow>
      selected n1 = Elem e \<and> activeElement dm1 = Some e \<and> classList dm1 e = classList dm e \<and>
      selected (fst (unselect n1 dm1)) = SelectedMethod \<and>
      activeElement (snd (unselect n1 dm1)) = Some e \<and>
      selected (fst (disable n1 dm1)) = SelectedMethod \<and>
      activeElement (snd (disable n1 dm1)) = Some e)"
proof (intro conjI impI)
  show "snd (unselect n dm) =
        dm\<lparr>classList := (classList dm)(p := classList dm p - {opt_selected (options n)}),
           effects := effects dm @ [RemoveClass (opt_selected (options n)) p]\<rparr>"
    if "selected n = Elem p"
    using that by (simp add: unselect_eq unmarked_classes_def unmark_effects_def)
  show "activeElement (snd (unselect n dm)) = activeElement dm"
    by (simp add: unselect_eq)
  show "activeElement (snd (disable n dm)) = activeElement dm"
    by (simp add: disable_dom)
  show "classList (snd (disable n dm)) = classList (snd (unselect n dm))"
    by (simp add: disable_dom unselect_eq)
next
  assume a: "selected n \<noteq> Elem e \<and> matches_input dm e \<and> select n dm (Some e) d = Some (n1, dm1)"
  then have ne: "selected n \<noteq> Elem e" and inp: "matches_input dm e"
    and s: "select n dm (Some e) d = Some (n1, dm1)" by simp_all
  from select_frame [OF ne s] inp
  show sel: "selected n1 = Elem e" and act: "activeElement dm1 = Some e"
    by auto
  from select_frame [OF ne s] inp ne show "classList dm1 e = classList dm e"
    by (cases "selected n") (auto simp: marked_classes_def unmarked_classes_def)
  from sel show "selected (fst (unselect n1 dm1)) = SelectedMethod"
    "selected (fst (disable n1 dm1)) = SelectedMethod"
    by (simp_all add: unselect_eq disable_navigator)
  from act show "activeElement (snd (unselect n1 dm1)) = Some e"
    "activeElement (snd (disable n1 dm1)) = Some e"
    by (simp_all add: unselect_eq disable_dom)
qed

theorem unselect_leaves_focus_witness:
  "selected grid_nav \<noteq> Elem 1 \<and> matches_input input_dom 1 \<and>
   select grid_nav input_dom (Some 1) None
     = Some (grid_nav\<lparr>selected := Elem 1\<rparr>, focus 1 input_dom) \<and>
   activeElement (focus 1 input_dom) = Some 1 \<and>
   selected (fst (unselect (grid_nav\<lparr>selected := Elem 1\<rparr>) (focus 1 input_dom))) = SelectedMethod \<and>
   activeElement (snd (unselect (grid_nav\<lparr>selected := Elem 1\<rparr>) (focus 1 input_dom))) = Some 1 \<and>
   activeElement (snd (disable (grid_nav\<lparr>selected := Elem 1\<rparr>) (focus 1 input_dom))) = Some 1 \<and>
   snd (unselect (grid_nav\<lparr>selected := Elem 2\<rparr>) c6_dom)
     = c6_dom\<lparr>classList := (classList c6_dom)(2 := {}),
              effects := effects c6_dom @ [RemoveClass ''selected'' 2]\<rparr>"
  using unselect_leaves_focus [of grid_nav 1 input_dom 1 None "grid_nav\<lparr>selected := Elem 1\<rparr>"
          "focus 1 input_dom"]
        unselect_leaves_focus [of "grid_nav\<lparr>selected := Elem 2\<rparr>" 2 c6_dom 2 None
          "grid_nav\<lparr>selected := Elem 2\<rparr>" c6_dom]
  by (simp add: grid_nav_simps input_dom_def c6_dom_def grid_dom_def select_def unselect_def
      DEFAULTS_def focus_def)

section \<open>Enabling twice\<close>

text \<open>
  C3. Idempotence of \<open>enable\<close> asks that a second call, with no \<open>disable\<close> in between,
  registers no second listener, so that exactly one keydown listener is registered after
  it. The source has no guard for that. On a new navigator the first \<open>enable\<close> registers the handler 0; the
  second creates the handler 1, registers it as well and stores it in place of the first,
  so two listeners are registered. \<open>disable\<close> and \<open>destroy\<close> then remove the handler 1
  only: the handler 0 is still registered after \<open>destroy\<close>.
\<close>

theorem enable_twice_leaves_listener:
  "listeners grid_dom = [] \<and>
   enabled (fst c3_once) = Some True \<and>
   listeners (snd c3_once) = [0] \<and> keydownHandler (fst c3_once) = Some 0 \<and>
   c3_twice = enable (fst c3_once) (snd c3_once) \<and>
   listeners (snd c3_twice) = [0, 1] \<and> keydownHandler (fst c3_twice) = Some 1 \<and>
   listeners (snd (disable (fst c3_twice) (snd c3_twice))) = [0] \<and>
   c3_destroyed = destroy (fst c3_twice) (snd c3_twice) \<and>
   listeners (snd c3_destroyed) = [0]"
  by (simp add: c3_destroyed_def destroy_listeners c3_twice_def c3_once_def enable_eq
      addEventListener_def disable_dom grid_dom_def)

section \<open>The first selection\<close>

text \<open>
  C4, as amended. On a navigator whose \<open>selected\<close> is \<open>null\<close> and whose candidate
  sequence is not empty, a key bound to one of the four directions selects the first
  candidate in sequence order, and \<open>scrollTo\<close> is invoked for that candidate with the
  direction of the key, as for any other selection: whenever the handler returns, the
  first candidate is selected and the history holds exactly that one invocation. The
  scroll offsets stay as they are when the candidate passes both visibility checks.
\<close>

theorem handleKeydown_first_selection:
  assumes "selected n = Null" "elements n = Some (e # es)"
    and "keys n (which ev) = Some d"
    and "d = DIRECTION_left \<or> d = DIRECTION_up \<or> d = DIRECTION_right \<or> d = DIRECTION_down"
  shows "handleKeydown n dm ev =
           (case scrollTo n dm e d of
              None \<Rightarrow> None
            | Some dm1 \<Rightarrow>
                Some (Inr (ev\<lparr>defaultPrevented := True\<rparr>, n\<lparr>selected := Elem e\<rparr>,
                           if matches_input dm e then focus e dm1
                           else u_addClass (opt_selected (options n)) e dm1))) \<and>
         (\<forall>ev2 n2 dm2. handleKeydown n dm ev = Some (Inr (ev2, n2, dm2)) \<longrightarrow>
            selected n2 = Elem e \<and> filter is_scroll (new_effects dm dm2) = [ScrollTo e d]) \<and>
         (inScrollContainerViewport n dm e \<and> inViewport dm e \<longrightarrow>
            (\<exists>dm2. handleKeydown n dm ev
                      = Some (Inr (ev\<lparr>defaultPrevented := True\<rparr>, n\<lparr>selected := Elem e\<rparr>, dm2)) \<and>
                   scrollLeft dm2 = scrollLeft dm \<and> scrollTop dm2 = scrollTop dm))"
proof -
  from assms(4) have d: "d \<noteq> []" by auto
  note hk = handleKeydown_Null [OF assms(1-3) d]
  have "selected n2 = Elem e \<and> filter is_scroll (new_effects dm dm2) = [ScrollTo e d]"
    if r: "handleKeydown n dm ev = Some (Inr (ev2, n2, dm2))" for ev2 n2 dm2
  proof -
    from r hk obtain dm1 where s: "scrollTo n dm e d = Some dm1"
      and n2: "n2 = n\<lparr>selected := Elem e\<rparr>"
      and dm2: "dm2 = (if matches_input dm e then focus e dm1
                       else u_addClass (opt_selected (options n)) e dm1)"
      by (auto split: option.splits)
    from scrollTo_frame [OF s] have "effects dm1 = effects dm @ [ScrollTo e d]" by auto
    with dm2 have "new_effects dm dm2 =
        [ScrollTo e d, if matches_input dm e then Focus e
                       else AddClass (opt_selected (options n)) e]"
      by (simp add: new_effects_def focus_def u_addClass_def)
    with n2 show ?thesis by simp
  qed
  moreover have "\<exists>dm2. handleKeydown n dm ev
                      = Some (Inr (ev\<lparr>defaultPrevented := True\<rparr>, n\<lparr>selected := Elem e\<rparr>, dm2)) \<and>
                   scrollLeft dm2 = scrollLeft dm \<and> scrollTop dm2 = scrollTop dm"
    if "inScrollContainerViewport n dm e \<and> inViewport dm e"
    using that hk
    by (simp add: scrollTo_both_visible focus_def u_addClass_def inViewport_effects)
  ultimately show ?thesis using hk by blast
qed

theorem handleKeydown_first_selection_witness:
  "selected grid_nav = Null \<and> elements grid_nav = Some [1, 2, 3, 4] \<and>
   keys grid_nav 40 = Some DIRECTION_down \<and>
   inScrollContainerViewport grid_nav grid_dom 1 \<and> inViewport grid_dom 1 \<and>
   handleKeydown grid_nav grid_dom \<lparr>which = 40, defaultPrevented = False\<rparr>
     = Some (Inr (\<lparr>which = 40, defaultPrevented = True\<rparr>, grid_nav\<lparr>selected := Elem 1\<rparr>,
                  grid_dom\<lparr>classList := (classList grid_dom)(1 := {''selected''}),
                           effects := [ScrollTo 1 DIRECTION_down, AddClass ''selected'' 1]\<rparr>))"
  using handleKeydown_first_selection [of grid_nav 1 "[2, 3, 4]"
          "\<lparr>which = 40, defaultPrevented = False\<rparr>" DIRECTION_down grid_dom]
  by (simp add: grid_nav_simps grid_dom_def scrollTo_def inScrollContainerViewport_def
      inViewport_def Let_def u_addClass_def DEFAULTS_def)

theorem handleKeydown_first_selection_scrolls_counterexample:
  "selected grid_nav = Null \<and> elements grid_nav = Some [1, 2, 3, 4] \<and>
   keys grid_nav 38 = Some DIRECTION_up \<and> scroll_container grid_nav = 0 \<and>
   scrollTop c4_dom 0 = 60 \<and>
   c4_result
     = Some (Inr (\<lparr>which = 38, defaultPrevented = True\<rparr>, grid_nav\<lparr>selected := Elem 1\<rparr>,
                  c4_dom\<lparr>scrollTop := (scrollTop c4_dom)(0 := 0),
                         classList := (classList c4_dom)(1 := {''selected''}),
                         effects := [ScrollTo 1 DIRECTION_up, AddClass ''selected'' 1]\<rparr>))"
  by (simp add: c4_result_def c4_dom_def grid_nav_simps grid_dom_def handleKeydown_def
      select_def unselect_def scrollTo_def inScrollContainerViewport_def Let_def
      set_scrollTop_def u_addClass_def DEFAULTS_def)

section \<open>One highlighted element\<close>

text \<open>
  C8, as amended. At most one element is selected at any time (\<open>selected\<close> holds one
  value), and at most one element carries the highlight class: when it holds that the
  selected element carries the class if it is not an \<open>input\<close> and that no other element
  carries it, the same holds after \<open>select\<close>, \<open>unselect\<close>, \<open>disable\<close>, \<open>enable\<close> and the
  key handler. A selection that replaces another first removes the class from the element
  selected before, then scrolls if a direction is given, then marks the new element.
\<close>

theorem highlight_follows_selection:
  assumes "highlight_inv n dm"
  shows "(\<forall>n1 dm1. select n dm el d = Some (n1, dm1) \<longrightarrow> highlight_inv n1 dm1) \<and>
         highlight_inv (fst (unselect n dm)) (snd (unselect n dm)) \<and>
         highlight_inv (fst (disable n dm)) (snd (disable n dm)) \<and>
         highlight_inv (fst (enable n dm)) (snd (enable n dm)) \<and>
         (\<forall>ev1 n1 dm1. handleKeydown n dm ev = Some (Inr (ev1, n1, dm1)) \<longrightarrow>
            highlight_inv n1 dm1) \<and>
         (\<forall>p e n1 dm1. selected n = Elem p \<and> p \<noteq> e \<and>
              select n dm (Some e) d = Some (n1, dm1) \<longrightarrow>
            new_effects dm dm1 =
              RemoveClass (opt_selected (options n)) p # scroll_effects e d
                @ [mark_effect n dm e])"
proof (intro conjI allI impI)
  show "highlight_inv n1 dm1" if "select n dm el d = Some (n1, dm1)" for n1 dm1
    using assms that by (rule highlight_inv_select)
  show "highlight_inv (fst (unselect n dm)) (snd (unselect n dm))"
    using assms by (rule highlight_inv_unselect)
  show "highlight_inv (fst (disable n dm)) (snd (disable n dm))"
    using assms by (rule highlight_inv_disable)
  show "highlight_inv (fst (enable n dm)) (snd (enable n dm))"
    using assms by (rule highlight_inv_enable)
  show "highlight_inv n1 dm1" if "handleKeydown n dm ev = Some (Inr (ev1, n1, dm1))"
    for ev1 n1 dm1
    using assms that by (rule highlight_inv_handleKeydown)
next
  fix p e n1 dm1
  assume a: "selected n = Elem p \<and> p \<noteq> e \<and> select n dm (Some e) d = Some (n1, dm1)"
  then have ne: "selected n \<noteq> Elem e" and s: "select n dm (Some e) d = Some (n1, dm1)"
    by auto
  from select_frame [OF ne s] a
  show "new_effects dm dm1 =
          RemoveClass (opt_selected (options n)) p # scroll_effects e d @ [mark_effect n dm e]"
    by (auto simp: new_effects_def unmark_effects_def)
qed

theorem highlight_follows_selection_witness:
  "highlight_inv (grid_nav\<lparr>selected := Elem 2\<rparr>) c6_dom \<and>
   select (grid_nav\<lparr>selected := Elem 2\<rparr>) c6_dom (Some 3) None
     = Some (grid_nav\<lparr>selected := Elem 3\<rparr>,
             c6_dom\<lparr>classList := (classList c6_dom)(2 := {}, 3 := {''selected''}),
                    effects := effects c6_dom @ [RemoveClass ''selected'' 2, AddClass ''selected'' 3]\<rparr>) \<and>
   highlight_inv (grid_nav\<lparr>selected := Elem 3\<rparr>)
     (c6_dom\<lparr>classList := (classList c6_dom)(2 := {}, 3 := {''selected''}),
             effects := effects c6_dom @ [RemoveClass ''selected'' 2, AddClass ''selected'' 3]\<rparr>) \<and>
   highlighted (grid_nav\<lparr>selected := Elem 3\<rparr>)
     (c6_dom\<lparr>classList := (classList c6_dom)(2 := {}, 3 := {''selected''}),
             effects := effects c6_dom @ [RemoveClass ''selected'' 2, AddClass ''selected'' 3]\<rparr>) = {3}"
proof -
  have inv: "highlight_inv (grid_nav\<lparr>selected := Elem 2\<rparr>) c6_dom"
    by (auto simp: highlight_inv_def highlighted_def c6_dom_def grid_dom_def grid_nav_simps
        DEFAULTS_def)
  have sel: "select (grid_nav\<lparr>selected := Elem 2\<rparr>) c6_dom (Some 3) None
     = Some (grid_nav\<lparr>selected := Elem 3\<rparr>,
             c6_dom\<lparr>classList := (classList c6_dom)(2 := {}, 3 := {''selected''}),
                    effects := effects c6_dom @ [RemoveClass ''selected'' 2, AddClass ''selected'' 3]\<rparr>)"
    by (simp add: select_def unselect_def u_addClass_def c6_dom_def grid_dom_def grid_nav_simps
        DEFAULTS_def)
  from highlight_follows_selection [OF inv, of "Some 3" None] sel
  have after: "highlight_inv (grid_nav\<lparr>selected := Elem 3\<rparr>)
     (c6_dom\<lparr>classList := (classList c6_dom)(2 := {}, 3 := {''selected''}),
             effects := effects c6_dom @ [RemoveClass ''selected'' 2, AddClass ''selected'' 3]\<rparr>)"
    by blast
  then have "highlighted (grid_nav\<lparr>selected := Elem 3\<rparr>)
     (c6_dom\<lparr>classList := (classList c6_dom)(2 := {}, 3 := {''selected''}),
             effects := effects c6_dom @ [RemoveClass ''selected'' 2, AddClass ''selected'' 3]\<rparr>) = {3}"
    by (simp add: highlight_inv_def c6_dom_def grid_dom_def)
  with inv sel after show ?thesis by simp
qed

theorem focus_and_highlight_counterexample:
  "matches_input input_dom 1 \<and> \<not> matches_input input_dom 2 \<and>
   c8_first = Some (grid_nav\<lparr>selected := Elem 1\<rparr>, focus 1 input_dom) \<and>
   c8_second \<noteq> None \<and>
   selected (fst (the c8_second)) = Elem 2 \<and>
   activeElement (snd (the c8_second)) = Some 1 \<and>
   classList (snd (the c8_second)) 2 = {''selected''} \<and>
   effects (snd (the c8_second))
     = [Focus 1, RemoveClass ''selected'' 1, AddClass ''selected'' 2]"
  by (simp add: c8_second_def c8_first_def input_dom_def grid_dom_def grid_nav_simps
      select_def unselect_def focus_def u_addClass_def DEFAULTS_def)

end
